theory Spec2Isabelle
  imports Main
begin

section \<open>JavaScript strings\<close>

text \<open>
  A JavaScript string is a sequence of UTF-16 code units; \<open>length\<close>, \<open>substring\<close> and the
  regular expressions of the service (none has the \<open>u\<close> flag) all count code units. A code
  unit is modelled as a natural number, so that the bullet U+2022 and the Unicode white
  space of \<open>\s\<close> and \<open>trim\<close> are characters like any other. \<open>str\<close> embeds an ASCII
  literal.
\<close>

type_synonym jschar = nat
type_synonym jsstring = "nat list"

definition str :: "string \<Rightarrow> jsstring" where
  "str s = map of_char s"

text \<open>White space and line terminators: what \<open>\s\<close> matches and what \<open>trim\<close> strips.\<close>

definition isSpace :: "jschar \<Rightarrow> bool" where
  "isSpace c = (c = 9 \<or> c = 10 \<or> c = 11 \<or> c = 12 \<or> c = 13 \<or> c = 32 \<or> c = 160
     \<or> c = 5760 \<or> (8192 \<le> c \<and> c \<le> 8202) \<or> c = 8232 \<or> c = 8233 \<or> c = 8239
     \<or> c = 8287 \<or> c = 12288 \<or> c = 65279)"

definition isDigit :: "jschar \<Rightarrow> bool" where
  "isDigit c = (48 \<le> c \<and> c \<le> 57)"

definition isUpper :: "jschar \<Rightarrow> bool" where
  "isUpper c = (65 \<le> c \<and> c \<le> 90)"

definition isLower :: "jschar \<Rightarrow> bool" where
  "isLower c = (97 \<le> c \<and> c \<le> 122)"

text \<open>\<open>\b\<close> separates a word character \<open>[A-Za-z0-9_]\<close> from anything else.\<close>

definition isWordChar :: "jschar \<Rightarrow> bool" where
  "isWordChar c = (isUpper c \<or> isLower c \<or> isDigit c \<or> c = 95)"

text \<open>The three characters of the class \<open>[\<bullet>\-\*]\<close>: U+2022, hyphen and asterisk.\<close>

definition isBullet :: "jschar \<Rightarrow> bool" where
  "isBullet c = (c = 8226 \<or> c = 45 \<or> c = 42)"

text \<open>
  Matching under the \<open>i\<close> flag compares canonicalised code units. Every pattern character
  of the service is ASCII, and without the \<open>u\<close> flag no code unit from 128 on canonicalises
  to an ASCII one, so only the ASCII letters are folded.
\<close>

definition canonicalize :: "jschar \<Rightarrow> jschar" where
  "canonicalize c = (if isLower c then c - 32 else c)"

definition startsWithCI :: "jsstring \<Rightarrow> jsstring \<Rightarrow> bool" where
  "startsWithCI pat s =
     (length pat \<le> length s \<and> map canonicalize (take (length pat) s) = map canonicalize pat)"

definition trim :: "jsstring \<Rightarrow> jsstring" where
  "trim s = dropWhile isSpace (rev (dropWhile isSpace (rev s)))"

text \<open>\<open>content.split('\n')\<close>: the pieces between line feeds, empty pieces included.\<close>

fun split_nl :: "jsstring \<Rightarrow> jsstring list" where
  "split_nl [] = [[]]"
| "split_nl (c # cs) =
     (if c = 10 then [] # split_nl cs
      else (case split_nl cs of [] \<Rightarrow> [[c]] | l # ls \<Rightarrow> (c # l) # ls))"

text \<open>\<open>substring(0, n)\<close> for a non-negative \<open>n\<close>.\<close>

definition substring0 :: "nat \<Rightarrow> jsstring \<Rightarrow> jsstring" where
  "substring0 n s = take n s"

text \<open>
  \<open>xs.slice(0, end)\<close> for an integer \<open>end\<close>: a negative end counts from the end of the
  array, and the result is clamped to the array.
\<close>

definition slice0 :: "int \<Rightarrow> 'a list \<Rightarrow> 'a list" where
  "slice0 e xs =
     (let len = int (length xs);
          final = (if e < 0 then max (len + e) 0 else min e len)
      in take (nat final) xs)"

section \<open>Data model\<close>

text \<open>
  \<open>NewsArticle\<close> as the objects are at run time: every property may be \<open>undefined\<close>
  (\<open>None\<close>). The parser starts from the empty \<open>Partial<NewsArticle>\<close>, and the structured
  provider's articles are copied from untyped data.
\<close>

record NewsArticle =
  title :: "jsstring option"
  summary :: "jsstring option"
  url :: "jsstring option"
  source :: "jsstring option"
  publishedAt :: "jsstring option"

definition emptyArticle :: NewsArticle where
  "emptyArticle = \<lparr>title = None, summary = None, url = None, source = None, publishedAt = None\<rparr>"

text \<open>JavaScript truthiness of a property that is a string or \<open>undefined\<close>.\<close>

definition truthy :: "jsstring option \<Rightarrow> bool" where
  "truthy v = (case v of None \<Rightarrow> False | Some s \<Rightarrow> s \<noteq> [])"

text \<open>
  The clock: \<open>new Date().toISOString()\<close> is a read of the system time. The readings of
  one run are a sequence \<open>clk\<close>; the state is the number of readings taken so far.
\<close>

type_synonym clock = "nat \<Rightarrow> jsstring"

section \<open>The free-text parser\<close>

text \<open>\<open>/^\d+\./\<close>\<close>

definition startsWithNumber :: "jsstring \<Rightarrow> bool" where
  "startsWithNumber line =
     (takeWhile isDigit line \<noteq> [] \<and>
      (case dropWhile isDigit line of [] \<Rightarrow> False | c # _ \<Rightarrow> c = 46))"

text \<open>\<open>/^[\<bullet>\-\*]/\<close>\<close>

definition startsWithBullet :: "jsstring \<Rightarrow> bool" where
  "startsWithBullet line = (case line of [] \<Rightarrow> False | c # _ \<Rightarrow> isBullet c)"

text \<open>\<open>/^[A-Z][^.]*:/\<close>: a capital, then a colon before the first full stop.\<close>

definition capsWithColon :: "jsstring \<Rightarrow> bool" where
  "capsWithColon line =
     (case line of [] \<Rightarrow> False
      | c # cs \<Rightarrow> isUpper c \<and> 58 \<in> set (takeWhile (\<lambda>d. d \<noteq> 46) cs))"

definition startsWithCaps :: "jsstring \<Rightarrow> bool" where
  "startsWithCaps line = (case line of [] \<Rightarrow> False | c # _ \<Rightarrow> isUpper c)"

definition endsWithPeriod :: "jsstring \<Rightarrow> bool" where
  "endsWithPeriod line = (line \<noteq> [] \<and> last line = 46)"

definition looksLikeTitle :: "jsstring \<Rightarrow> bool" where
  "looksLikeTitle line =
     (startsWithNumber line \<or> startsWithBullet line \<or> capsWithColon line \<or>
      (length line < 100 \<and> startsWithCaps line \<and> \<not> endsWithPeriod line))"

text \<open>
  \<open>cleanTitle\<close>: three replacements and a trim. The third pattern, \<open>/\s*-\s*[^-]*$/\<close>,
  can only match at the last hyphen of the string, and the leftmost match starts at the
  white space right before it: everything from there on is removed.
\<close>

definition stripNumber :: "jsstring \<Rightarrow> jsstring" where
  "stripNumber t =
     (if startsWithNumber t then dropWhile isSpace (tl (dropWhile isDigit t)) else t)"

definition stripBullet :: "jsstring \<Rightarrow> jsstring" where
  "stripBullet t = (if startsWithBullet t then dropWhile isSpace (tl t) else t)"

definition stripSourceSuffix :: "jsstring \<Rightarrow> jsstring" where
  "stripSourceSuffix t =
     (if 45 \<in> set t
      then rev (dropWhile isSpace (tl (dropWhile (\<lambda>c. c \<noteq> 45) (rev t))))
      else t)"

definition cleanTitle :: "jsstring \<Rightarrow> jsstring" where
  "cleanTitle t = trim (stripSourceSuffix (stripBullet (stripNumber t)))"

text \<open>
  \<open>extractSource\<close>, first pattern \<open>/(?:Source:|via|from)\s*([A-Za-z\s]+)$/i\<close>: at the
  leftmost keyword whose remainder consists of letters and white space only (and is not
  empty). \<open>\s*\<close> is greedy, so the group is the remainder without its leading white space,
  or its last character when it is all white space.
\<close>

definition afterKeyword :: "jsstring \<Rightarrow> jsstring option" where
  "afterKeyword s =
     (if startsWithCI (str ''Source:'') s then Some (drop 7 s)
      else if startsWithCI (str ''via'') s then Some (drop 3 s)
      else if startsWithCI (str ''from'') s then Some (drop 4 s)
      else None)"

definition isLetterOrSpace :: "jschar \<Rightarrow> bool" where
  "isLetterOrSpace c = (isUpper c \<or> isLower c \<or> isSpace c)"

definition keywordCapture :: "jsstring \<Rightarrow> jsstring option" where
  "keywordCapture s =
     (case afterKeyword s of
        None \<Rightarrow> None
      | Some r \<Rightarrow>
          if r \<noteq> [] \<and> list_all isLetterOrSpace r
          then Some (if dropWhile isSpace r \<noteq> [] then dropWhile isSpace r else [last r])
          else None)"

fun matchKeywordSource :: "jsstring \<Rightarrow> jsstring option" where
  "matchKeywordSource [] = None"
| "matchKeywordSource (c # cs) =
     (case keywordCapture (c # cs) of
        Some g \<Rightarrow> Some g
      | None \<Rightarrow> matchKeywordSource cs)"

text \<open>
  Second pattern \<open>/-\s*([A-Z][a-z]+(?:\s+[A-Z][a-z]+)*)$/\<close>: \<open>capWords\<close> is the group
  anchored at the end, a capital followed by small letters, repeated with white space
  between.
\<close>

function capWords :: "jsstring \<Rightarrow> bool" where
  "capWords [] = False"
| "capWords (c # cs) =
     (isUpper c \<and> takeWhile isLower cs \<noteq> [] \<and>
      (dropWhile isLower cs = [] \<or>
       (takeWhile isSpace (dropWhile isLower cs) \<noteq> [] \<and>
        capWords (dropWhile isSpace (dropWhile isLower cs)))))"
  by pat_completeness auto
termination
proof (relation "measure length")
  show "wf (measure length)" by simp
next
  fix c :: nat and cs :: "nat list"
  have "length (dropWhile isSpace (dropWhile isLower cs)) \<le> length cs"
    by (meson length_dropWhile_le order_trans)
  then show "(dropWhile isSpace (dropWhile isLower cs), c # cs) \<in> measure length"
    by simp
qed

fun matchDashSource :: "jsstring \<Rightarrow> jsstring option" where
  "matchDashSource [] = None"
| "matchDashSource (c # cs) =
     (if c = 45 \<and> capWords (dropWhile isSpace cs) then Some (dropWhile isSpace cs)
      else matchDashSource cs)"

definition extractSource :: "jsstring \<Rightarrow> jsstring option" where
  "extractSource text =
     (case matchKeywordSource text of
        Some g \<Rightarrow> Some (trim g)
      | None \<Rightarrow> (case matchDashSource text of Some g \<Rightarrow> Some (trim g) | None \<Rightarrow> None))"

text \<open>
  \<open>extractDate\<close>, pattern \<open>/\b(?:today|yesterday|this morning|this afternoon|earlier today)\b/i\<close>.
  Each alternative starts and ends with a letter, so the boundaries ask for no word
  character right before and right after it.
\<close>

definition relativeTimeWords :: "jsstring list" where
  "relativeTimeWords =
     [str ''today'', str ''yesterday'', str ''this morning'', str ''this afternoon'',
      str ''earlier today'']"

definition wordEndsHere :: "jsstring \<Rightarrow> bool" where
  "wordEndsHere s = (case s of [] \<Rightarrow> True | c # _ \<Rightarrow> \<not> isWordChar c)"

definition relativeTimeAt :: "jsstring \<Rightarrow> bool" where
  "relativeTimeAt s =
     list_ex (\<lambda>w. startsWithCI w s \<and> wordEndsHere (drop (length w) s)) relativeTimeWords"

fun dateMatchFrom :: "bool \<Rightarrow> jsstring \<Rightarrow> bool" where
  "dateMatchFrom afterWord [] = False"
| "dateMatchFrom afterWord (c # cs) =
     ((\<not> afterWord \<and> relativeTimeAt (c # cs)) \<or> dateMatchFrom (isWordChar c) cs)"

definition dateMatch :: "jsstring \<Rightarrow> bool" where
  "dateMatch text = dateMatchFrom False text"

definition extractDate :: "clock \<Rightarrow> nat \<Rightarrow> jsstring \<Rightarrow> jsstring option \<times> nat" where
  "extractDate clk k text = (if dateMatch text then (Some (clk k), Suc k) else (None, k))"

text \<open>
  The body of the loop of \<open>parseNewsResponse\<close>. The state is the array \<open>articles\<close>, the
  article being built and the clock.
\<close>

definition appendSummary :: "jsstring option \<Rightarrow> jsstring \<Rightarrow> jsstring option" where
  "appendSummary s line =
     (case s of
        None \<Rightarrow> Some line
      | Some old \<Rightarrow> if old = [] then Some line else Some (old @ [32] @ line))"

definition pushIfComplete :: "NewsArticle list \<Rightarrow> NewsArticle \<Rightarrow> NewsArticle list" where
  "pushIfComplete articles cur =
     (if truthy (title cur) \<and> truthy (summary cur) then articles @ [cur] else articles)"

definition parseLine ::
  "clock \<Rightarrow> NewsArticle list \<times> NewsArticle \<times> nat \<Rightarrow> jsstring \<Rightarrow> NewsArticle list \<times> NewsArticle \<times> nat"
where
  "parseLine clk st line =
     (case st of (articles, cur, k) \<Rightarrow>
        let trimmedLine = trim line in
        if trimmedLine = [] then (articles, cur, k)
        else if looksLikeTitle trimmedLine then
          (case extractDate clk k trimmedLine of (d, k') \<Rightarrow>
             (pushIfComplete articles cur,
              \<lparr>title = Some (cleanTitle trimmedLine), summary = Some [], url = None,
               source = extractSource trimmedLine, publishedAt = d\<rparr>,
              k'))
        else if truthy (title cur) \<and> 20 < length trimmedLine then
          (articles, cur\<lparr>summary := appendSummary (summary cur) trimmedLine\<rparr>, k)
        else (articles, cur, k))"

definition contentLines :: "jsstring \<Rightarrow> jsstring list" where
  "contentLines content = filter (\<lambda>line. trim line \<noteq> []) (split_nl content)"

definition parseLoop :: "clock \<Rightarrow> nat \<Rightarrow> jsstring list \<Rightarrow> NewsArticle list \<times> nat" where
  "parseLoop clk k lines =
     (case foldl (parseLine clk) ([], emptyArticle, k) lines of
        (articles, cur, k') \<Rightarrow> (pushIfComplete articles cur, k'))"

definition fallbackArticle :: "clock \<Rightarrow> nat \<Rightarrow> jsstring \<Rightarrow> NewsArticle" where
  "fallbackArticle clk k content =
     \<lparr>title = Some (str ''Latest News Summary''),
      summary = Some (substring0 500 (trim content) @ (if 500 < length content then str ''...'' else [])),
      url = None, source = None, publishedAt = Some (clk k)\<rparr>"

definition parseNewsResponse :: "clock \<Rightarrow> nat \<Rightarrow> jsstring \<Rightarrow> NewsArticle list \<times> nat" where
  "parseNewsResponse clk k content =
     (case parseLoop clk k (contentLines content) of
        (articles, k') \<Rightarrow>
          if length articles = 0 \<and> trim content \<noteq> []
          then (take 5 (articles @ [fallbackArticle clk k' content]), Suc k')
          else (take 5 articles, k'))"

section \<open>The news service\<close>

text \<open>
  The value passed as \<open>query\<close> is a string wherever the callers are type-checked.
  \<open>getNewsByCategory\<close> reads it out of an object literal through a cast, and an object
  literal also answers for the properties it inherits from \<open>Object.prototype\<close>; the two
  inherited values that a lower-cased key can reach are part of the model.
\<close>

datatype jsvalue = JSString jsstring | ObjectConstructor | ObjectPrototype

text \<open>The conversion a template literal applies to \<open>${query}\<close>.\<close>

fun toString :: "jsvalue \<Rightarrow> jsstring" where
  "toString (JSString s) = s"
| "toString ObjectConstructor = str ''function Object() { [native code] }''"
| "toString ObjectPrototype = str ''[object Object]''"

record NewsResponse =
  articles :: "NewsArticle list"
  query :: jsvalue
  timestamp :: jsstring

record NewsService =
  perplexityApiKey :: jsstring
  newsApiKey :: jsstring

text \<open>The constructor: \<open>newsApiKey || ''\<close>.\<close>

definition newNewsService :: "jsstring \<Rightarrow> jsstring option \<Rightarrow> NewsService" where
  "newNewsService pKey nKey =
     \<lparr>perplexityApiKey = pKey, newsApiKey = (case nKey of None \<Rightarrow> [] | Some s \<Rightarrow> s)\<rparr>"

datatype error = PerplexityError | NewsApiKeyMissing | NewsApiError

text \<open>
  What the remote calls did is a parameter of the model. The request to the first provider
  either throws inside the \<open>try\<close> block (transport error, error status, a payload without
  \<open>choices\<close>, a content that is not text) or delivers \<open>choices[0]?.message?.content\<close>,
  a string or \<open>undefined\<close>. The request to the second provider either throws (also when
  the payload has no array of article objects) or delivers the articles.
\<close>

datatype perplexity_outcome = PerplexityFailed | PerplexityReplied "jsstring option"

text \<open>
  An article of the second provider's response, by the properties the mapping reads;
  \<open>api_sourceName\<close> is \<open>article.source?.name\<close>. \<open>None\<close> is \<open>null\<close> or \<open>undefined\<close>.
\<close>

record ApiArticle =
  api_title :: "jsstring option"
  api_description :: "jsstring option"
  api_content :: "jsstring option"
  api_url :: "jsstring option"
  api_sourceName :: "jsstring option"
  api_publishedAt :: "jsstring option"

datatype newsapi_outcome = NewsApiFailed | NewsApiReplied "ApiArticle list"

text \<open>\<open>content || ''\<close>\<close>

definition orEmpty :: "jsstring option \<Rightarrow> jsstring" where
  "orEmpty c = (case c of None \<Rightarrow> [] | Some s \<Rightarrow> s)"

definition getNewsFromPerplexity ::
  "clock \<Rightarrow> nat \<Rightarrow> perplexity_outcome \<Rightarrow> jsvalue \<Rightarrow> int \<Rightarrow> (error + NewsResponse) \<times> nat"
where
  "getNewsFromPerplexity clk k outcome q limit =
     (case outcome of
        PerplexityFailed \<Rightarrow> (Inl PerplexityError, k)
      | PerplexityReplied c \<Rightarrow>
          (case parseNewsResponse clk k (orEmpty c) of
             (as, k') \<Rightarrow> (Inr \<lparr>articles = as, query = q, timestamp = clk k'\<rparr>, Suc k')))"

text \<open>
  The mapping of one article of the second provider. \<open>+\<close> binds tighter than \<open>||\<close>, and
  \<open>content?.substring(0, 200)\<close> is \<open>undefined\<close> when there is no content, which the
  concatenation turns into text.
\<close>

definition mapApiArticle :: "ApiArticle \<Rightarrow> NewsArticle" where
  "mapApiArticle a =
     \<lparr>title = api_title a,
      summary =
        (if truthy (api_description a) then api_description a
         else Some ((case api_content a of
                       None \<Rightarrow> str ''undefined''
                     | Some c \<Rightarrow> substring0 200 c) @ str ''...'')),
      url = api_url a,
      source = api_sourceName a,
      publishedAt = api_publishedAt a\<rparr>"

definition getNewsFromNewsAPI ::
  "NewsService \<Rightarrow> clock \<Rightarrow> nat \<Rightarrow> newsapi_outcome \<Rightarrow> jsvalue \<Rightarrow> int \<Rightarrow> (error + NewsResponse) \<times> nat"
where
  "getNewsFromNewsAPI svc clk k outcome q limit =
     (if newsApiKey svc = [] then (Inl NewsApiKeyMissing, k)
      else (case outcome of
              NewsApiFailed \<Rightarrow> (Inl NewsApiError, k)
            | NewsApiReplied as \<Rightarrow>
                (Inr \<lparr>articles = map mapApiArticle as, query = q, timestamp = clk k\<rparr>, Suc k)))"

definition mockArticles :: "clock \<Rightarrow> nat \<Rightarrow> jsvalue \<Rightarrow> NewsArticle list" where
  "mockArticles clk k q =
     [\<lparr>title = Some (str ''Latest Updates on '' @ toString q),
       summary = Some (str ''We are currently experiencing technical difficulties with our news sources. Please try again later for the most recent updates.''),
       url = None,
       source = Some (str ''News AI Bot''),
       publishedAt = Some (clk k)\<rparr>,
      \<lparr>title = Some (str ''Service Notice''),
       summary = Some (str ''Our news service is temporarily unavailable. We are working to restore full functionality as soon as possible.''),
       url = None,
       source = Some (str ''System''),
       publishedAt = Some (clk (Suc k))\<rparr>]"

definition getMockNews :: "clock \<Rightarrow> nat \<Rightarrow> jsvalue \<Rightarrow> int \<Rightarrow> NewsResponse \<times> nat" where
  "getMockNews clk k q limit =
     (\<lparr>articles = slice0 limit (mockArticles clk k q), query = q, timestamp = clk (k + 2)\<rparr>,
      k + 3)"

definition getLatestNews ::
  "NewsService \<Rightarrow> clock \<Rightarrow> nat \<Rightarrow> perplexity_outcome \<Rightarrow> newsapi_outcome \<Rightarrow> jsvalue \<Rightarrow> int
     \<Rightarrow> (error + NewsResponse) \<times> nat"
where
  "getLatestNews svc clk k pp na q limit =
     (case getNewsFromPerplexity clk k pp q limit of
        (Inr r, k') \<Rightarrow> (Inr r, k')
      | (Inl perplexityError, k1) \<Rightarrow>
          (case getNewsFromNewsAPI svc clk k1 na q limit of
             (Inr r, k') \<Rightarrow> (Inr r, k')
           | (Inl newsApiError, k2) \<Rightarrow>
               (case getMockNews clk k2 q limit of (r, k3) \<Rightarrow> (Inr r, k3))))"

text \<open>
  \<open>categoryQueries[key]\<close>: the eight own properties of the literal, then the prototype
  chain. Of the properties of \<open>Object.prototype\<close> only \<open>constructor\<close> and \<open>__proto__\<close>
  have a name without capital letters, which is all a lower-cased key can spell.
\<close>

definition categoryQueries :: "(jsstring \<times> jsstring) list" where
  "categoryQueries =
     [(str ''technology'', str ''latest technology news today''),
      (str ''business'', str ''latest business and finance news today''),
      (str ''sports'', str ''latest sports news today''),
      (str ''health'', str ''latest health and medical news today''),
      (str ''science'', str ''latest science and research news today''),
      (str ''politics'', str ''latest political news today''),
      (str ''world'', str ''latest world news today''),
      (str ''entertainment'', str ''latest entertainment news today'')]"

definition getProperty :: "jsstring \<Rightarrow> jsvalue option" where
  "getProperty key =
     (case map_of categoryQueries key of
        Some v \<Rightarrow> Some (JSString v)
      | None \<Rightarrow>
          if key = str ''constructor'' then Some ObjectConstructor
          else if key = str ''__proto__'' then Some ObjectPrototype
          else None)"

text \<open>
  \<open>toLowerCase\<close> on the ASCII letters; code units from 128 on are left as they are.
  JavaScript lowers a cased letter outside ASCII to text that still has a code unit from
  128 on, the Kelvin sign excepted, which it lowers to \<open>k\<close>, a letter that no property
  name above contains. So the lookup finds the same property as in JavaScript.
\<close>

definition toLowerCase :: "jsstring \<Rightarrow> jsstring" where
  "toLowerCase s = map (\<lambda>c. if isUpper c then c + 32 else c) s"

definition jsTruthy :: "jsvalue \<Rightarrow> bool" where
  "jsTruthy v = (case v of JSString s \<Rightarrow> s \<noteq> [] | _ \<Rightarrow> True)"

definition categoryQuery :: "jsstring \<Rightarrow> jsvalue" where
  "categoryQuery category =
     (case getProperty (toLowerCase category) of
        Some v \<Rightarrow>
          if jsTruthy v then v
          else JSString (str ''latest '' @ category @ str '' news today'')
      | None \<Rightarrow> JSString (str ''latest '' @ category @ str '' news today''))"

definition getNewsByCategory ::
  "NewsService \<Rightarrow> clock \<Rightarrow> nat \<Rightarrow> perplexity_outcome \<Rightarrow> newsapi_outcome \<Rightarrow> jsstring \<Rightarrow> int
     \<Rightarrow> (error + NewsResponse) \<times> nat"
where
  "getNewsByCategory svc clk k pp na category limit =
     getLatestNews svc clk k pp na (categoryQuery category) limit"

section \<open>Observations on results\<close>

text \<open>An article that the loop may push: both \<open>title\<close> and \<open>summary\<close> are truthy.\<close>

definition complete :: "NewsArticle \<Rightarrow> bool" where
  "complete a = (truthy (title a) \<and> truthy (summary a))"

text \<open>
  The loop of the parser, described by the lines alone. The trimmed, non-empty lines fall
  into blocks: a line that looks like a title opens a block, and the lines up to the next
  such line are its continuation lines (lines before the first title belong to no block).
  A block stands for an item when its cleaned title is not empty and its summary, the
  continuation lines of more than 20 code units joined by single spaces, is not empty.
\<close>

definition trimmedLines :: "jsstring list \<Rightarrow> jsstring list" where
  "trimmedLines ls = filter (\<lambda>l. l \<noteq> []) (map trim ls)"

fun titleBlocks :: "jsstring list \<Rightarrow> jsstring list \<times> (jsstring \<times> jsstring list) list" where
  "titleBlocks [] = ([], [])"
| "titleBlocks (l # ls) =
     (case titleBlocks ls of
        (pre, bs) \<Rightarrow> if looksLikeTitle l then ([], (l, pre) # bs) else (l # pre, bs))"

fun joinSpace :: "jsstring list \<Rightarrow> jsstring" where
  "joinSpace [] = []"
| "joinSpace [x] = x"
| "joinSpace (x # y # ys) = x @ [32] @ joinSpace (y # ys)"

definition summaryOf :: "jsstring list \<Rightarrow> jsstring" where
  "summaryOf cs = joinSpace (filter (\<lambda>c. 20 < length c) cs)"

definition yieldsItem :: "jsstring \<times> jsstring list \<Rightarrow> bool" where
  "yieldsItem b = (case b of (t, cs) \<Rightarrow> cleanTitle t \<noteq> [] \<and> summaryOf cs \<noteq> [])"

definition itemsOfBlocks :: "(jsstring \<times> jsstring list) list \<Rightarrow> (jsstring \<times> jsstring) list" where
  "itemsOfBlocks bs = map (\<lambda>b. (fst b, summaryOf (snd b))) (filter yieldsItem bs)"

text \<open>
  The date rule in words of its own: a line mentions relative time when, at some position,
  it reads one of the five words \<open>today\<close>, \<open>yesterday\<close>, \<open>this morning\<close>,
  \<open>this afternoon\<close>, \<open>earlier today\<close>, capital and small letters taken as the same, as a
  whole word: the character before it, if any, and the character after it, if any, is no
  letter, digit or underscore.
\<close>

definition specTimeWords :: "jsstring list" where
  "specTimeWords =
     [str ''today'', str ''yesterday'', str ''this morning'', str ''this afternoon'',
      str ''earlier today'']"

definition foldCase :: "jschar \<Rightarrow> jschar" where
  "foldCase c = (if 65 \<le> c \<and> c \<le> 90 then c + 32 else c)"

definition partOfWord :: "jschar \<Rightarrow> bool" where
  "partOfWord c = (c \<in> {48..57} \<union> {65..90} \<union> {97..122} \<union> {95})"

definition readsAt :: "jsstring \<Rightarrow> jsstring \<Rightarrow> nat \<Rightarrow> bool" where
  "readsAt w line i =
     (i + length w \<le> length line \<and>
      map foldCase (take (length w) (drop i line)) = map foldCase w \<and>
      (i = 0 \<or> \<not> partOfWord (line ! (i - 1))) \<and>
      (i + length w = length line \<or> \<not> partOfWord (line ! (i + length w))))"

definition mentionsRelativeTime :: "jsstring \<Rightarrow> bool" where
  "mentionsRelativeTime line =
     list_ex (\<lambda>w. list_ex (readsAt w line) [0..<length line]) specTimeWords"

text \<open>
  An article \<open>a\<close> comes from the title line \<open>t\<close> with summary \<open>s\<close>: its title and
  source are those extracted from the title line, and \<open>publishedAt\<close> is set exactly when
  the title line mentions relative time.
\<close>

definition fromTitleLine :: "NewsArticle \<Rightarrow> jsstring \<times> jsstring \<Rightarrow> bool" where
  "fromTitleLine a b =
     (case b of (t, s) \<Rightarrow>
        looksLikeTitle t \<and> title a = Some (cleanTitle t) \<and> summary a = Some s \<and>
        source a = extractSource t \<and> (publishedAt a \<noteq> None) = mentionsRelativeTime t)"

text \<open>A \<open>publishedAt\<close> that is set is one of the clock readings \<open>k, \<dots>, k' - 1\<close>.\<close>

definition stampedBy :: "clock \<Rightarrow> nat \<Rightarrow> nat \<Rightarrow> NewsArticle \<Rightarrow> bool" where
  "stampedBy clk k k' a =
     (case publishedAt a of None \<Rightarrow> True | Some ts \<Rightarrow> ts \<in> clk ` {k..<k'})"

text \<open>
  For the proof: the block that the article under construction belongs to, if any, with the
  continuation lines seen so far.
\<close>

definition openBlock ::
  "(jsstring \<times> jsstring list) option \<Rightarrow> jsstring list \<Rightarrow> (jsstring \<times> jsstring list) list" where
  "openBlock blk pre = (case blk of None \<Rightarrow> [] | Some (t, cs) \<Rightarrow> [(t, cs @ pre)])"

definition itemsFrom ::
  "(jsstring \<times> jsstring list) option \<Rightarrow> jsstring list \<Rightarrow> (jsstring \<times> jsstring) list" where
  "itemsFrom blk tls =
     (case titleBlocks tls of (pre, bs) \<Rightarrow> itemsOfBlocks (openBlock blk pre @ bs))"

definition tracks :: "NewsArticle \<Rightarrow> (jsstring \<times> jsstring list) option \<Rightarrow> bool" where
  "tracks cur blk =
     (case blk of
        None \<Rightarrow> title cur = None
      | Some (t, cs) \<Rightarrow>
          looksLikeTitle t \<and> title cur = Some (cleanTitle t) \<and> source cur = extractSource t \<and>
          (publishedAt cur \<noteq> None) = dateMatch t \<and>
          (cleanTitle t \<noteq> [] \<longrightarrow> summary cur = Some (summaryOf cs)))"

definition finish :: "NewsArticle list \<times> NewsArticle \<times> nat \<Rightarrow> NewsArticle list" where
  "finish st = (case st of (as, cur, k) \<Rightarrow> pushIfComplete as cur)"

section \<open>Sample inputs\<close>

text \<open>Concrete inputs at which the theorems below are instantiated and the code is run.\<close>

definition sampleClock :: clock where
  "sampleClock n = str ''2024-05-01T12:00:00.000Z''"

definition sampleService :: NewsService where
  "sampleService = newNewsService (str ''pplx-key'') (Some (str ''newsapi-key''))"

text \<open>The text of the specification's parsing example.\<close>

definition stormText :: jsstring where
  "stormText =
     str ''1. Storm Hits City'' @ [10] @
     str ''Heavy rain caused flooding across downtown. - Local News'' @ [10] @
     str ''2. Market Rally'' @ [10] @
     str ''Stocks rose sharply today.''"

text \<open>Two numbered stories, each with one line of summary that ends in a full stop.\<close>

definition twoStories :: jsstring where
  "twoStories =
     str ''1. Storm Alpha'' @ [10] @
     str ''Heavy rain caused flooding across downtown.'' @ [10] @
     str ''2. Market Rally today'' @ [10] @
     str ''Stocks rose sharply after the announcement.''"

text \<open>A sentence in which no line looks like a title.\<close>

definition plainText :: jsstring where
  "plainText = str ''  no fresh stories could be found right now.''"

definition sampleApiArticles :: "ApiArticle list" where
  "sampleApiArticles =
     [\<lparr>api_title = Some (str ''Rates held''), api_description = Some (str ''The bank kept rates.''),
       api_content = Some (str ''Full text''), api_url = Some (str ''https://example.org/a''),
       api_sourceName = Some (str ''Wire''), api_publishedAt = Some (str ''2024-04-30T08:00:00Z'')\<rparr>,
      \<lparr>api_title = Some (str ''Cup final''), api_description = None,
       api_content = Some (str ''The final was played.''), api_url = None,
       api_sourceName = None, api_publishedAt = None\<rparr>]"

text \<open>Six numbered stories, one more than the parser returns.\<close>

definition sixStories :: jsstring where
  "sixStories =
     str ''1. Ab'' @ [10] @ str ''first story summary text.'' @ [10] @
     str ''2. Cd'' @ [10] @ str ''second story summary text.'' @ [10] @
     str ''3. Ef'' @ [10] @ str ''third story summary text.'' @ [10] @
     str ''4. Gh'' @ [10] @ str ''fourth story summary text.'' @ [10] @
     str ''5. Ij'' @ [10] @ str ''fifth story summary text.'' @ [10] @
     str ''6. Kl'' @ [10] @ str ''sixth story summary text.''"

text \<open>
  Three numbered stories. The first title line carries a source and the word \<open>Today\<close>
  with a capital; the second has \<open>Todays\<close>, which is another word; the continuation
  lines name sources and relative times of their own.
\<close>

definition sourcedStories :: jsstring where
  "sourcedStories =
     str ''1. Flood warning Today - Reuters'' @ [10] @
     str ''rivers rose overnight across the north, via Local News.'' @ [10] @
     str ''2. Todays deals'' @ [10] @
     str ''shops cut prices earlier today, from Wire reports.'' @ [10] @
     str ''3. Market Rally'' @ [10] @
     str ''stocks rose sharply yesterday.''"

text \<open>An article of the second provider with neither description nor content.\<close>

definition bareArticle :: ApiArticle where
  "bareArticle =
     \<lparr>api_title = Some (str ''Cup final''), api_description = None, api_content = None,
      api_url = Some (str ''https://example.org/cup''), api_sourceName = Some (str ''Wire''),
      api_publishedAt = Some (str ''2024-04-30T08:00:00Z'')\<rparr>"

section \<open>Evaluation rules\<close>

lemmas char_defs =
  isSpace_def isDigit_def isUpper_def isLower_def isWordChar_def isBullet_def
  canonicalize_def isLetterOrSpace_def startsWithCI_def

lemmas title_defs =
  looksLikeTitle_def startsWithNumber_def startsWithBullet_def capsWithColon_def
  startsWithCaps_def endsWithPeriod_def

lemmas clean_defs =
  cleanTitle_def stripNumber_def stripBullet_def stripSourceSuffix_def trim_def

lemmas source_defs =
  extractSource_def keywordCapture_def afterKeyword_def

lemmas date_defs =
  dateMatch_def relativeTimeAt_def relativeTimeWords_def wordEndsHere_def

lemmas parse_defs =
  parseNewsResponse_def parseLoop_def contentLines_def parseLine_def pushIfComplete_def
  appendSummary_def truthy_def emptyArticle_def extractDate_def fallbackArticle_def
  substring0_def

lemmas service_defs =
  getLatestNews_def getNewsFromPerplexity_def getNewsFromNewsAPI_def getMockNews_def
  mockArticles_def slice0_def newNewsService_def sampleService_def

section \<open>The parser: bounds and invariants\<close>

lemma parseNewsResponse_le5: "length (fst (parseNewsResponse clk k content)) \<le> 5"
  by (simp add: parseNewsResponse_def split: prod.splits)

lemma sixStories_loop: "length (fst (parseLoop sampleClock 0 (contentLines sixStories))) = 6"
  by (simp add: sixStories_def str_def parse_defs char_defs title_defs clean_defs source_defs
      date_defs Let_def)

text \<open>
  C5. Whatever the text, the parser returns at most five items: the result is cut by
  \<open>slice(0, 5)\<close>, which does not look at the caller's limit.
\<close>

theorem parseNewsResponse_at_most_five:
  "length (fst (parseNewsResponse clk k content)) \<le> 5"
  by (rule parseNewsResponse_le5)

theorem parseNewsResponse_at_most_five_witness:
  "length (fst (parseLoop sampleClock 0 (contentLines sixStories))) = 6 \<and>
   length (fst (parseNewsResponse sampleClock 0 sixStories)) \<le> 5"
  using parseNewsResponse_at_most_five[of sampleClock 0 sixStories] sixStories_loop
  by simp

lemma pushIfComplete_complete:
  "\<forall>a\<in>set as. complete a \<Longrightarrow> \<forall>a\<in>set (pushIfComplete as cur). complete a"
  by (simp add: pushIfComplete_def complete_def)

lemma parseLine_complete:
  assumes "\<forall>a\<in>set as. complete a" and "parseLine clk (as, cur, k) line = (as', cur', k')"
  shows "\<forall>a\<in>set as'. complete a"
  using assms pushIfComplete_complete[of as cur]
  by (auto simp: parseLine_def Let_def split: if_splits prod.splits)

lemma foldl_parseLine_complete:
  "\<forall>a\<in>set as. complete a \<Longrightarrow> foldl (parseLine clk) (as, cur, k) ls = (as', cur', k')
     \<Longrightarrow> \<forall>a\<in>set as'. complete a"
proof (induction ls arbitrary: as cur k)
  case Nil
  then show ?case by simp
next
  case (Cons l ls)
  obtain as1 cur1 k1 where st: "parseLine clk (as, cur, k) l = (as1, cur1, k1)"
    by (cases "parseLine clk (as, cur, k) l") auto
  have "\<forall>a\<in>set as1. complete a"
    using parseLine_complete[OF Cons.prems(1) st] .
  moreover have "foldl (parseLine clk) (as1, cur1, k1) ls = (as', cur', k')"
    using Cons.prems(2) st by simp
  ultimately show ?case using Cons.IH by blast
qed

lemma parseLoop_complete: "\<forall>a\<in>set (fst (parseLoop clk k ls)). complete a"
proof -
  obtain as cur k' where st: "foldl (parseLine clk) ([], emptyArticle, k) ls = (as, cur, k')"
    by (cases "foldl (parseLine clk) ([], emptyArticle, k) ls") auto
  have "\<forall>a\<in>set as. complete a"
    using foldl_parseLine_complete[OF _ st] by simp
  then have "\<forall>a\<in>set (pushIfComplete as cur). complete a"
    by (rule pushIfComplete_complete)
  then show ?thesis by (simp add: parseLoop_def st)
qed

lemma fallbackArticle_complete:
  "trim content \<noteq> [] \<Longrightarrow> complete (fallbackArticle clk k content)"
  by (simp add: fallbackArticle_def complete_def truthy_def substring0_def str_def)

lemma twoStories_parsed:
  "parseNewsResponse clk k twoStories =
     ([\<lparr>title = Some (str ''Storm Alpha''),
        summary = Some (str ''Heavy rain caused flooding across downtown.''),
        url = None, source = None, publishedAt = None\<rparr>,
       \<lparr>title = Some (str ''Market Rally today''),
        summary = Some (str ''Stocks rose sharply after the announcement.''),
        url = None, source = None, publishedAt = Some (clk k)\<rparr>], Suc k)"
  by (simp add: twoStories_def str_def parse_defs char_defs title_defs clean_defs source_defs
      date_defs Let_def)

text \<open>
  C9. Every item the parser returns has a title and a summary that are present and not
  empty: the loop pushes an article only when both are truthy, and the fallback item has
  a fixed title and a summary taken from a text whose trimmed form is not empty.
\<close>

theorem parseNewsResponse_items_complete:
  "\<forall>a\<in>set (fst (parseNewsResponse clk k content)). truthy (title a) \<and> truthy (summary a)"
proof -
  obtain as k' where lp: "parseLoop clk k (contentLines content) = (as, k')"
    by (cases "parseLoop clk k (contentLines content)") auto
  have c: "\<forall>a\<in>set as. complete a"
    using parseLoop_complete[of clk k "contentLines content"] by (simp add: lp)
  show ?thesis
  proof (cases "length as = 0 \<and> trim content \<noteq> []")
    case True
    then have "fst (parseNewsResponse clk k content) = [fallbackArticle clk k' content]"
      by (simp add: parseNewsResponse_def lp)
    then show ?thesis
      using fallbackArticle_complete[of content clk k'] True by (simp add: complete_def)
  next
    case False
    then have "fst (parseNewsResponse clk k content) = take 5 as"
      by (auto simp: parseNewsResponse_def lp)
    then show ?thesis
      using c set_take_subset[of 5 as] by (auto simp: complete_def)
  qed
qed

theorem parseNewsResponse_items_complete_witness:
  "fst (parseNewsResponse sampleClock 0 twoStories) \<noteq> [] \<and>
   list_all complete (fst (parseNewsResponse sampleClock 0 twoStories))"
  using parseNewsResponse_items_complete[of sampleClock 0 twoStories]
  by (simp add: list_all_iff complete_def twoStories_parsed)

section \<open>The parser on texts without a title line\<close>

lemma parseLine_no_title:
  assumes "\<not> looksLikeTitle (trim line)" and "title cur = None"
  shows "parseLine clk (as, cur, k) line = (as, cur, k)"
  using assms by (simp add: parseLine_def Let_def truthy_def)

lemma foldl_parseLine_no_title:
  assumes "\<forall>line\<in>set ls. \<not> looksLikeTitle (trim line)" and "title cur = None"
  shows "foldl (parseLine clk) (as, cur, k) ls = (as, cur, k)"
  using assms by (induction ls) (simp_all add: parseLine_no_title)

lemma parseLoop_no_title:
  assumes "\<forall>line\<in>set ls. \<not> looksLikeTitle (trim line)"
  shows "parseLoop clk k ls = ([], k)"
  using foldl_parseLine_no_title[OF assms, of emptyArticle clk "[]" k]
  by (simp add: parseLoop_def emptyArticle_def pushIfComplete_def truthy_def)

lemma parseNewsResponse_no_title:
  assumes "\<forall>line\<in>set (split_nl content). \<not> looksLikeTitle (trim line)"
  shows "parseNewsResponse clk k content =
           (if trim content \<noteq> [] then ([fallbackArticle clk k content], Suc k) else ([], k))"
proof -
  have "\<forall>line\<in>set (contentLines content). \<not> looksLikeTitle (trim line)"
    using assms by (simp add: contentLines_def)
  then have "parseLoop clk k (contentLines content) = ([], k)"
    by (rule parseLoop_no_title)
  then show ?thesis by (simp add: parseNewsResponse_def)
qed

lemma length_trim_le: "length (trim s) \<le> length s"
proof -
  have "length (trim s) \<le> length (rev (dropWhile isSpace (rev s)))"
    unfolding trim_def by (rule length_dropWhile_le)
  also have "\<dots> = length (dropWhile isSpace (rev s))"
    by simp
  also have "\<dots> \<le> length (rev s)"
    by (rule length_dropWhile_le)
  finally show ?thesis by simp
qed

lemma plainText_lines: "\<forall>line\<in>set (split_nl plainText). \<not> looksLikeTitle (trim line)"
  by (simp add: plainText_def str_def title_defs char_defs trim_def)

lemma plainText_trim: "trim plainText = str ''no fresh stories could be found right now.''"
  by (simp add: plainText_def str_def trim_def char_defs)

lemma blank_lines: "\<forall>line\<in>set (split_nl (str '' '')). \<not> looksLikeTitle (trim line)"
  by (simp add: str_def title_defs char_defs trim_def)

lemma plainText_parsed:
  "fst (parseNewsResponse clk k plainText) =
     [\<lparr>title = Some (str ''Latest News Summary''),
       summary = Some (str ''no fresh stories could be found right now.''),
       url = None, source = None, publishedAt = Some (clk k)\<rparr>]"
proof -
  have "trim plainText \<noteq> []" "\<not> 500 < length plainText"
    "take 500 (trim plainText) = trim plainText"
    by (simp_all add: plainText_trim) (simp_all add: plainText_def str_def)
  then show ?thesis
    by (simp add: parseNewsResponse_no_title[OF plainText_lines] fallbackArticle_def
        substring0_def plainText_trim)
qed

text \<open>
  C6, as the specification states it, fails twice. On a text of white space only, which is
  not empty and has no line that looks like a title, the guard \<open>content.trim()\<close> lets no
  fallback item through. On a text that starts with white space the summary is taken from
  the trimmed text and is not a prefix of the input.
\<close>

theorem parseNewsResponse_blank_counterexample:
  "str '' '' \<noteq> [] \<and> \<not> list_ex looksLikeTitle (split_nl (str '' '')) \<and>
   fst (parseNewsResponse sampleClock 0 (str '' '')) = [] \<and>
   \<not> list_ex looksLikeTitle (split_nl plainText) \<and>
   map summary (fst (parseNewsResponse sampleClock 0 plainText)) =
     [Some (str ''no fresh stories could be found right now.'')] \<and>
   take (length (str ''no fresh stories could be found right now.'')) plainText \<noteq>
     str ''no fresh stories could be found right now.''"
proof -
  have "trim (str '' '') = []" by (simp add: str_def trim_def char_defs)
  then have "fst (parseNewsResponse sampleClock 0 (str '' '')) = []"
    by (simp add: parseNewsResponse_no_title[OF blank_lines])
  moreover have "\<not> list_ex looksLikeTitle (split_nl (str '' ''))"
    by (simp add: str_def title_defs char_defs)
  moreover have "str '' '' \<noteq> []" by (simp add: str_def)
  moreover have "\<not> list_ex looksLikeTitle (split_nl plainText)"
    by (simp add: plainText_def str_def title_defs char_defs)
  moreover have "take (length (str ''no fresh stories could be found right now.'')) plainText \<noteq>
      str ''no fresh stories could be found right now.''"
    by (simp add: plainText_def str_def)
  ultimately show ?thesis by (simp add: plainText_parsed)
qed

text \<open>
  C6, amended. When the trimmed text is not empty and no trimmed line looks like a title,
  the parser returns exactly one item, titled \<open>Latest News Summary\<close> and dated by the
  clock. Its summary is taken from the trimmed text: the whole of it when the text has at
  most 500 code units, its first 500 code units followed by \<open>...\<close> when the trimmed text
  has more than 500. (A text longer than 500 code units only because of the white space
  around it is left out of the statement.)
\<close>

theorem parseNewsResponse_fallback:
  assumes "trim content \<noteq> []"
    and "\<forall>line\<in>set (split_nl content). \<not> looksLikeTitle (trim line)"
    and "length content \<le> 500 \<or> 500 < length (trim content)"
  shows "fst (parseNewsResponse clk k content) =
           [\<lparr>title = Some (str ''Latest News Summary''),
             summary = Some (take 500 (trim content) @
                             (if 500 < length (trim content) then str ''...'' else [])),
             url = None, source = None, publishedAt = Some (clk k)\<rparr>]"
proof -
  have marker: "(500 < length content) = (500 < length (trim content))"
    using assms(3) length_trim_le[of content] by linarith
  show ?thesis
    using assms(1) marker
    by (simp add: parseNewsResponse_no_title[OF assms(2)] fallbackArticle_def substring0_def)
qed

theorem parseNewsResponse_fallback_witness:
  "fst (parseNewsResponse sampleClock 0 plainText) =
     [\<lparr>title = Some (str ''Latest News Summary''),
       summary = Some (str ''no fresh stories could be found right now.''),
       url = None, source = None, publishedAt = Some (sampleClock 0)\<rparr>]"
proof -
  have h1: "trim plainText \<noteq> []"
    by (simp add: plainText_trim str_def)
  have h3: "length plainText \<le> 500 \<or> 500 < length (trim plainText)"
    by (simp add: plainText_def str_def)
  have small: "\<not> 500 < length (trim plainText)" "take 500 (trim plainText) = trim plainText"
    by (simp_all add: plainText_trim str_def)
  show ?thesis
    using parseNewsResponse_fallback[OF h1 plainText_lines h3, of sampleClock 0] small
    by (simp add: plainText_trim)
qed

section \<open>The specification's parsing example\<close>

lemma stormText_second_line_is_title:
  "looksLikeTitle (str ''Heavy rain caused flooding across downtown. - Local News'')"
  by (simp add: str_def title_defs char_defs)

lemma stormText_parsed:
  "parseNewsResponse clk k stormText =
     ([\<lparr>title = Some (str ''Market Rally''),
        summary = Some (str ''Stocks rose sharply today.''),
        url = None, source = None, publishedAt = None\<rparr>], k)"
  by (simp add: stormText_def str_def parse_defs char_defs title_defs clean_defs source_defs
      date_defs Let_def)

text \<open>
  C4, as the specification states it, fails: on the example text the parser does not
  return two items.
\<close>

theorem parseNewsResponse_storm_counterexample:
  "length (fst (parseNewsResponse sampleClock 0 stormText)) \<noteq> 2"
  by (simp add: stormText_parsed)

text \<open>
  C4, amended. On the example text the parser returns exactly one item: title
  \<open>Market Rally\<close>, summary \<open>Stocks rose sharply today.\<close>, no source and no
  \<open>publishedAt\<close>, and it does not read the clock. The second line is short, starts with a
  capital and does not end in a full stop, so it is taken for a title; the first story
  never gets a summary and is dropped, and so is the second line's own article. The word
  \<open>today\<close> stands in a summary line, where no date is looked for.
\<close>

theorem parseNewsResponse_storm:
  "parseNewsResponse clk k stormText =
     ([\<lparr>title = Some (str ''Market Rally''),
        summary = Some (str ''Stocks rose sharply today.''),
        url = None, source = None, publishedAt = None\<rparr>], k)"
  by (rule stormText_parsed)

theorem parseNewsResponse_storm_witness:
  "fst (parseNewsResponse sampleClock 0 stormText) =
     [\<lparr>title = Some (str ''Market Rally''),
       summary = Some (str ''Stocks rose sharply today.''),
       url = None, source = None, publishedAt = None\<rparr>]"
  using parseNewsResponse_storm[of sampleClock 0] by simp

section \<open>The fallback chain\<close>

lemma slice0_length: "1 \<le> e \<Longrightarrow> int (length (slice0 e xs)) = min e (int (length xs))"
  by (simp add: slice0_def Let_def)

lemma slice0_subset: "set (slice0 e xs) \<subseteq> set xs"
  by (simp add: slice0_def Let_def set_take_subset)

lemma getLatestNews_both_fail:
  assumes "newsApiKey svc = [] \<or> na = NewsApiFailed"
  shows "getLatestNews svc clk k PerplexityFailed na q limit =
           (Inr \<lparr>articles = slice0 limit (mockArticles clk k q), query = q,
                 timestamp = clk (k + 2)\<rparr>, k + 3)"
  using assms
  by (auto simp: getLatestNews_def getNewsFromPerplexity_def getNewsFromNewsAPI_def
      getMockNews_def split: newsapi_outcome.splits)

lemma getLatestNews_perplexity_replied:
  "getLatestNews svc clk k (PerplexityReplied c) na q limit =
     (Inr \<lparr>articles = fst (parseNewsResponse clk k (orEmpty c)), query = q,
           timestamp = clk (snd (parseNewsResponse clk k (orEmpty c)))\<rparr>,
      Suc (snd (parseNewsResponse clk k (orEmpty c))))"
  by (simp add: getLatestNews_def getNewsFromPerplexity_def Let_def split: prod.splits)

lemma getLatestNews_newsapi_replied:
  assumes "newsApiKey svc \<noteq> []"
  shows "getLatestNews svc clk k PerplexityFailed (NewsApiReplied as) q limit =
     (Inr \<lparr>articles = map mapApiArticle as, query = q, timestamp = clk k\<rparr>, Suc k)"
  using assms by (simp add: getLatestNews_def getNewsFromPerplexity_def getNewsFromNewsAPI_def)

lemma mockArticles_props:
  "a \<in> set (mockArticles clk k q) \<Longrightarrow>
     (source a = Some (str ''System'') \<or> source a = Some (str ''News AI Bot'')) \<and>
     (publishedAt a = Some (clk k) \<or> publishedAt a = Some (clk (Suc k)))"
  by (auto simp: mockArticles_def)


lemma sampleService_key: "newsApiKey sampleService \<noteq> []"
  by (simp add: sampleService_def newNewsService_def str_def)

text \<open>
  C1, as the specification states it, fails on both providers: with limit 1, a first
  provider that answers with two numbered stories gives two items, and so does a second
  provider that answers with two articles.
\<close>

theorem getLatestNews_limit_counterexample:
  "\<not> isl (fst (getLatestNews sampleService sampleClock 0 (PerplexityReplied (Some twoStories))
            NewsApiFailed (JSString (str ''storms'')) 1)) \<and>
   \<not> int (length (articles (projr (fst (getLatestNews sampleService sampleClock 0
            (PerplexityReplied (Some twoStories)) NewsApiFailed (JSString (str ''storms'')) 1)))))
       \<le> 1 \<and>
   \<not> isl (fst (getLatestNews sampleService sampleClock 0 PerplexityFailed
            (NewsApiReplied sampleApiArticles) (JSString (str ''rates'')) 1)) \<and>
   \<not> int (length (articles (projr (fst (getLatestNews sampleService sampleClock 0
            PerplexityFailed (NewsApiReplied sampleApiArticles) (JSString (str ''rates'')) 1)))))
       \<le> 1"
  by (simp add: getLatestNews_perplexity_replied orEmpty_def twoStories_parsed
      getLatestNews_newsapi_replied[OF sampleService_key] sampleApiArticles_def)

text \<open>
  C1, amended. For a limit of at least 1, \<open>getLatestNews\<close> returns a result whose number
  of items is at most 5 when the first provider answers, at most the number of articles
  the second provider sent when that one answers, and at most the limit when both fail.
\<close>

theorem getLatestNews_item_count:
  assumes "1 \<le> limit"
  shows "\<exists>r k'. getLatestNews svc clk k pp na q limit = (Inr r, k') \<and>
           length (articles r) \<le>
             (case pp of
                PerplexityReplied c \<Rightarrow> 5
              | PerplexityFailed \<Rightarrow>
                  (case na of
                     NewsApiReplied as \<Rightarrow> if newsApiKey svc = [] then nat limit else length as
                   | NewsApiFailed \<Rightarrow> nat limit))"
proof (cases pp)
  case (PerplexityReplied c)
  then show ?thesis
    using parseNewsResponse_le5[of clk k "orEmpty c"]
    by (simp add: getLatestNews_perplexity_replied)
next
  case PerplexityFailed
  have mock: "length (slice0 limit (mockArticles clk k q)) \<le> nat limit"
    using slice0_length[OF assms, of "mockArticles clk k q"] by linarith
  show ?thesis
  proof (cases "newsApiKey svc = [] \<or> na = NewsApiFailed")
    case True
    then show ?thesis
      using mock PerplexityFailed getLatestNews_both_fail[OF True, of clk k q limit]
      by (auto split: newsapi_outcome.splits)
  next
    case False
    then obtain as where na: "na = NewsApiReplied as" and key: "newsApiKey svc \<noteq> []"
      by (cases na) auto
    show ?thesis
      using PerplexityFailed na key getLatestNews_newsapi_replied[OF key, of clk k as q limit]
      by simp
  qed
qed

theorem getLatestNews_item_count_witness:
  "length (articles (projr (fst (getLatestNews sampleService sampleClock 0
      (PerplexityReplied (Some twoStories)) NewsApiFailed (JSString (str ''storms'')) 1)))) \<le> 5"
  using getLatestNews_item_count[of 1 sampleService sampleClock 0
      "PerplexityReplied (Some twoStories)" NewsApiFailed "JSString (str ''storms'')"]
  by auto

text \<open>
  C2. When the first provider fails and the second has no key or fails too,
  \<open>getLatestNews\<close> does not raise: it returns a result that carries the query it was given
  and a timestamp read from the clock, whatever the limit.
\<close>

theorem getLatestNews_never_raises:
  assumes "newsApiKey svc = [] \<or> na = NewsApiFailed"
  shows "\<exists>r. getLatestNews svc clk k PerplexityFailed na q limit = (Inr r, k + 3) \<and>
             query r = q \<and> timestamp r = clk (k + 2)"
  using getLatestNews_both_fail[OF assms] by simp

theorem getLatestNews_never_raises_witness:
  "\<exists>r. getLatestNews sampleService sampleClock 0 PerplexityFailed NewsApiFailed
           (JSString (str ''storms'')) 0 = (Inr r, 3) \<and>
       query r = JSString (str ''storms'') \<and> timestamp r = str ''2024-05-01T12:00:00.000Z''"
  using getLatestNews_never_raises[of sampleService NewsApiFailed sampleClock 0
      "JSString (str ''storms'')" 0]
  by (simp add: sampleClock_def)

text \<open>
  C3. For a limit of at least 1, when both providers fail the result holds exactly
  \<open>min(limit, 2)\<close> items; each has the source \<open>System\<close> or \<open>News AI Bot\<close> and a
  \<open>publishedAt\<close> that is a reading of the clock taken during the call.
\<close>

theorem getLatestNews_placeholder:
  assumes "1 \<le> limit" and "newsApiKey svc = [] \<or> na = NewsApiFailed"
  shows "\<exists>r k'. getLatestNews svc clk k PerplexityFailed na q limit = (Inr r, k') \<and>
           int (length (articles r)) = min limit 2 \<and>
           (\<forall>a\<in>set (articles r).
              (source a = Some (str ''System'') \<or> source a = Some (str ''News AI Bot'')) \<and>
              (\<exists>j. k \<le> j \<and> j < k' \<and> publishedAt a = Some (clk j)))"
proof -
  let ?r = "\<lparr>articles = slice0 limit (mockArticles clk k q), query = q,
              timestamp = clk (k + 2)\<rparr>"
  have run: "getLatestNews svc clk k PerplexityFailed na q limit = (Inr ?r, k + 3)"
    by (rule getLatestNews_both_fail[OF assms(2)])
  have len: "int (length (articles ?r)) = min limit 2"
    using slice0_length[OF assms(1), of "mockArticles clk k q"] by (simp add: mockArticles_def)
  have each: "(source a = Some (str ''System'') \<or> source a = Some (str ''News AI Bot'')) \<and>
              (\<exists>j. k \<le> j \<and> j < k + 3 \<and> publishedAt a = Some (clk j))"
    if "a \<in> set (articles ?r)" for a
  proof -
    from that have m: "a \<in> set (mockArticles clk k q)"
      using slice0_subset[of limit "mockArticles clk k q"] by auto
    from mockArticles_props[OF m]
    have src: "source a = Some (str ''System'') \<or> source a = Some (str ''News AI Bot'')"
      and pub: "publishedAt a = Some (clk k) \<or> publishedAt a = Some (clk (Suc k))"
      by simp_all
    from pub have "\<exists>j. k \<le> j \<and> j < k + 3 \<and> publishedAt a = Some (clk j)"
    proof
      assume "publishedAt a = Some (clk k)"
      then have "k \<le> k \<and> k < k + 3 \<and> publishedAt a = Some (clk k)" by simp
      then show ?thesis by (rule exI)
    next
      assume "publishedAt a = Some (clk (Suc k))"
      then have "k \<le> Suc k \<and> Suc k < k + 3 \<and> publishedAt a = Some (clk (Suc k))" by simp
      then show ?thesis by (rule exI)
    qed
    with src show ?thesis by simp
  qed
  show ?thesis using run len each by blast
qed

theorem getLatestNews_placeholder_witness:
  "map source
     (articles (projr (fst (getLatestNews sampleService sampleClock 0 PerplexityFailed
        NewsApiFailed (JSString (str ''storms'')) 5)))) =
   [Some (str ''News AI Bot''), Some (str ''System'')] \<and>
   map publishedAt
     (articles (projr (fst (getLatestNews sampleService sampleClock 0 PerplexityFailed
        NewsApiFailed (JSString (str ''storms'')) 5)))) =
   [Some (sampleClock 0), Some (sampleClock 1)]"
  using getLatestNews_placeholder[of 5 sampleService NewsApiFailed sampleClock 0
      "JSString (str ''storms'')"]
  by (simp add: getLatestNews_both_fail slice0_def mockArticles_def)

section \<open>The structured provider\<close>

text \<open>
  What the mapping does for the articles the sentence of the specification covers: one
  item per article, in order; title, url, source name and publish time copied; the summary
  is the description when that is present and not empty, and the first 200 code units of
  the content followed by \<open>...\<close> when there is no description but a content.
\<close>

lemma getLatestNews_newsapi_fields:
  assumes "newsApiKey svc \<noteq> []" and "i < length as"
  shows "\<exists>r. getLatestNews svc clk k PerplexityFailed (NewsApiReplied as) q limit = (Inr r, Suc k) \<and>
           length (articles r) = length as \<and>
           title (articles r ! i) = api_title (as ! i) \<and>
           url (articles r ! i) = api_url (as ! i) \<and>
           source (articles r ! i) = api_sourceName (as ! i) \<and>
           publishedAt (articles r ! i) = api_publishedAt (as ! i) \<and>
           (truthy (api_description (as ! i)) \<longrightarrow>
              summary (articles r ! i) = api_description (as ! i)) \<and>
           (\<not> truthy (api_description (as ! i)) \<longrightarrow>
              (\<forall>c. api_content (as ! i) = Some c \<longrightarrow>
                 summary (articles r ! i) = Some (take 200 c @ str ''...'')))"
  using assms getLatestNews_newsapi_replied[OF assms(1), of clk k as q limit]
  by (auto simp: mapApiArticle_def substring0_def)

text \<open>
  C8 at an article that has neither description nor content (the second provider sends
  \<open>null\<close> for both when it has no text): \<open>article.content?.substring(0, 200)\<close> is
  \<open>undefined\<close>, and \<open>+ '...'\<close> turns it into the summary \<open>undefined...\<close>, which is no
  part of any content text.
\<close>

theorem getLatestNews_missing_content:
  "\<not> isl (fst (getLatestNews sampleService sampleClock 0 PerplexityFailed
            (NewsApiReplied [bareArticle]) (JSString (str ''cup'')) 5)) \<and>
   map summary (articles (projr (fst (getLatestNews sampleService sampleClock 0 PerplexityFailed
            (NewsApiReplied [bareArticle]) (JSString (str ''cup'')) 5)))) =
     [Some (str ''undefined...'')]"
  by (simp add: getLatestNews_newsapi_replied[OF sampleService_key] bareArticle_def
      mapApiArticle_def truthy_def str_def)

section \<open>Categories\<close>

lemma categoryQuery_constructor: "categoryQuery (str ''constructor'') = ObjectConstructor"
  by (simp add: categoryQuery_def getProperty_def toLowerCase_def categoryQueries_def
      jsTruthy_def isUpper_def str_def)

lemma categoryQuery_table:
  assumes "map_of categoryQueries (toLowerCase category) = Some v"
  shows "categoryQuery category = JSString v"
proof -
  have "v \<noteq> []"
    using assms by (auto simp: categoryQueries_def str_def split: if_splits)
  then show ?thesis
    using assms by (simp add: categoryQuery_def getProperty_def jsTruthy_def)
qed

lemma categoryQuery_generic:
  assumes "map_of categoryQueries (toLowerCase category) = None"
    and "toLowerCase category \<noteq> str ''constructor''"
    and "toLowerCase category \<noteq> str ''__proto__''"
  shows "categoryQuery category = JSString (str ''latest '' @ category @ str '' news today'')"
  using assms by (simp add: categoryQuery_def getProperty_def jsTruthy_def)

lemma categoryQuery_sports: "categoryQuery (str ''SPORTS'') = JSString (str ''latest sports news today'')"
  by (simp add: categoryQuery_def getProperty_def toLowerCase_def categoryQueries_def
      jsTruthy_def isUpper_def str_def)

lemma categoryQuery_tech: "categoryQuery (str ''tech'') = JSString (str ''latest tech news today'')"
  by (simp add: categoryQuery_def getProperty_def toLowerCase_def categoryQueries_def
      jsTruthy_def isUpper_def str_def)

text \<open>
  C7 at the category \<open>constructor\<close>: the lookup in the object literal finds the inherited
  property, so the query passed on is the function \<open>Object\<close> and not the generic template
  \<open>latest constructor news today\<close>. No exception is raised.
\<close>

theorem getNewsByCategory_inherited_property:
  "fst (getNewsByCategory sampleService sampleClock 0 PerplexityFailed NewsApiFailed
          (str ''constructor'') 5) =
   Inr \<lparr>articles = mockArticles sampleClock 0 ObjectConstructor, query = ObjectConstructor,
        timestamp = sampleClock 2\<rparr> \<and>
   fst (getNewsByCategory sampleService sampleClock 0 PerplexityFailed NewsApiFailed
          (str ''constructor'') 5) \<noteq>
   fst (getLatestNews sampleService sampleClock 0 PerplexityFailed NewsApiFailed
          (JSString (str ''latest constructor news today'')) 5)"
  by (simp add: getNewsByCategory_def categoryQuery_constructor getLatestNews_both_fail
      slice0_def mockArticles_def numeral_2_eq_2)

section \<open>The loop of the parser, line by line\<close>

lemma relativeTimeWords_nonempty: "w \<in> set relativeTimeWords \<Longrightarrow> w \<noteq> []"
  by (auto simp: relativeTimeWords_def str_def)

lemma wordEndsHere_iff: "wordEndsHere post = (post = [] \<or> \<not> isWordChar (hd post))"
  by (cases post) (simp_all add: wordEndsHere_def)

lemma relativeTimeAt_iff:
  "relativeTimeAt s =
     (\<exists>m post. s = m @ post \<and>
        (\<exists>w\<in>set relativeTimeWords. map canonicalize m = map canonicalize w) \<and>
        wordEndsHere post)"
proof
  assume "relativeTimeAt s"
  then obtain w where w: "w \<in> set relativeTimeWords" "length w \<le> length s"
    "map canonicalize (take (length w) s) = map canonicalize w"
    "wordEndsHere (drop (length w) s)"
    by (auto simp: relativeTimeAt_def list_ex_iff startsWithCI_def)
  have "s = take (length w) s @ drop (length w) s" by simp
  with w show "\<exists>m post. s = m @ post \<and>
        (\<exists>w\<in>set relativeTimeWords. map canonicalize m = map canonicalize w) \<and>
        wordEndsHere post"
    by blast
next
  assume "\<exists>m post. s = m @ post \<and>
        (\<exists>w\<in>set relativeTimeWords. map canonicalize m = map canonicalize w) \<and>
        wordEndsHere post"
  then obtain m post w where s: "s = m @ post" and w: "w \<in> set relativeTimeWords"
    and eq: "map canonicalize m = map canonicalize w" and e: "wordEndsHere post"
    by blast
  have len: "length m = length w"
    using eq by (metis length_map)
  have "startsWithCI w s \<and> wordEndsHere (drop (length w) s)"
    using s len eq e by (simp add: startsWithCI_def)
  with w show "relativeTimeAt s"
    by (auto simp: relativeTimeAt_def list_ex_iff)
qed

lemma dateMatchFrom_iff:
  "dateMatchFrom aw s =
     (\<exists>pre m post.
        s = pre @ m @ post \<and>
        (\<exists>w\<in>set relativeTimeWords. map canonicalize m = map canonicalize w) \<and>
        (if pre = [] then \<not> aw else \<not> isWordChar (last pre)) \<and>
        wordEndsHere post)"
proof (induction s arbitrary: aw)
  case Nil
  have "\<not> (\<exists>w\<in>set relativeTimeWords. map canonicalize [] = map canonicalize w)"
    using relativeTimeWords_nonempty by auto
  then show ?case by simp
next
  case (Cons c cs)
  let ?W = "\<lambda>m. \<exists>w\<in>set relativeTimeWords. map canonicalize m = map canonicalize w"
  show ?case
  proof
    assume "dateMatchFrom aw (c # cs)"
    then consider "\<not> aw" "relativeTimeAt (c # cs)" | "dateMatchFrom (isWordChar c) cs"
      by auto
    then show "\<exists>pre m post. c # cs = pre @ m @ post \<and> ?W m \<and>
          (if pre = [] then \<not> aw else \<not> isWordChar (last pre)) \<and> wordEndsHere post"
    proof cases
      case 1
      then obtain m post where "c # cs = m @ post" "?W m" "wordEndsHere post"
        using relativeTimeAt_iff[of "c # cs"] by blast
      then have "c # cs = [] @ m @ post \<and> ?W m \<and>
          (if [] = ([]::jsstring) then \<not> aw else \<not> isWordChar (last [])) \<and> wordEndsHere post"
        using 1 by simp
      then show ?thesis by blast
    next
      case 2
      then obtain pre m post where p: "cs = pre @ m @ post" "?W m"
        "if pre = [] then \<not> isWordChar c else \<not> isWordChar (last pre)" "wordEndsHere post"
        using Cons.IH[of "isWordChar c"] by blast
      have "c # cs = (c # pre) @ m @ post \<and> ?W m \<and>
          (if c # pre = [] then \<not> aw else \<not> isWordChar (last (c # pre))) \<and> wordEndsHere post"
        using p by (simp split: if_splits)
      then show ?thesis by blast
    qed
  next
    assume "\<exists>pre m post. c # cs = pre @ m @ post \<and> ?W m \<and>
          (if pre = [] then \<not> aw else \<not> isWordChar (last pre)) \<and> wordEndsHere post"
    then obtain pre m post where p: "c # cs = pre @ m @ post" "?W m"
        "if pre = [] then \<not> aw else \<not> isWordChar (last pre)" "wordEndsHere post"
      by blast
    show "dateMatchFrom aw (c # cs)"
    proof (cases pre)
      case Nil
      then have "relativeTimeAt (c # cs)" "\<not> aw"
        using p relativeTimeAt_iff[of "c # cs"] by auto
      then show ?thesis by simp
    next
      case (Cons d pre')
      then have "cs = pre' @ m @ post" and dc: "d = c" using p(1) by simp_all
      moreover have "if pre' = [] then \<not> isWordChar c else \<not> isWordChar (last pre')"
        using p(3) Cons dc by (simp split: if_splits)
      ultimately have "dateMatchFrom (isWordChar c) cs"
        using p(2) p(4) Cons.IH[of "isWordChar c"] by blast
      then show ?thesis by simp
    qed
  qed
qed

lemma dateMatch_split:
  "dateMatch line =
     (\<exists>pre m post.
        line = pre @ m @ post \<and>
        (\<exists>w\<in>set relativeTimeWords. map canonicalize m = map canonicalize w) \<and>
        (pre = [] \<or> \<not> isWordChar (last pre)) \<and>
        (post = [] \<or> \<not> isWordChar (hd post)))"
proof -
  have b: "(if pre = [] then \<not> False else \<not> isWordChar (last pre)) =
           (pre = [] \<or> \<not> isWordChar (last pre))" for pre :: jsstring
    by simp
  show ?thesis
    unfolding dateMatch_def dateMatchFrom_iff b wordEndsHere_iff
    by (rule refl)
qed

lemma partOfWord_iff: "partOfWord c = isWordChar c"
  by (auto simp: partOfWord_def isWordChar_def isUpper_def isLower_def isDigit_def)

lemma fold_canon_char: "(canonicalize x = canonicalize y) = (foldCase x = foldCase y)"
  by (auto simp: canonicalize_def foldCase_def isLower_def)

lemma fold_canon: "(map canonicalize m = map canonicalize w) = (map foldCase m = map foldCase w)"
proof (induction m arbitrary: w)
  case Nil
  then show ?case by simp
next
  case (Cons x m)
  then show ?case by (cases w) (simp_all add: fold_canon_char)
qed

lemma specTimeWords_code: "specTimeWords = relativeTimeWords"
  by (simp add: specTimeWords_def relativeTimeWords_def)

lemma list_ex_upt: "list_ex P [0..<n] = (\<exists>i<n. P i)"
  by (auto simp: list_ex_iff)

lemma readsAt_split:
  assumes "w \<noteq> []"
  shows "(\<exists>i<length line. readsAt w line i) =
         (\<exists>pre m post.
            line = pre @ m @ post \<and> map canonicalize m = map canonicalize w \<and>
            (pre = [] \<or> \<not> isWordChar (last pre)) \<and>
            (post = [] \<or> \<not> isWordChar (hd post)))"
proof
  assume "\<exists>i<length line. readsAt w line i"
  then obtain i where i: "i + length w \<le> length line"
    and eq: "map foldCase (take (length w) (drop i line)) = map foldCase w"
    and before: "i = 0 \<or> \<not> isWordChar (line ! (i - 1))"
    and after: "i + length w = length line \<or> \<not> isWordChar (line ! (i + length w))"
    by (auto simp: readsAt_def partOfWord_iff)
  let ?pre = "take i line"
  let ?m = "take (length w) (drop i line)"
  let ?post = "drop (i + length w) line"
  have 1: "line = ?pre @ ?m @ ?post"
    by (metis add.commute append_take_drop_id drop_drop)
  have 2: "map canonicalize ?m = map canonicalize w"
    using eq by (simp add: fold_canon)
  have 3: "?pre = [] \<or> \<not> isWordChar (last ?pre)"
  proof (cases "i = 0")
    case True
    then show ?thesis by simp
  next
    case False
    then have "?pre \<noteq> []" "length ?pre = i"
      using i by auto
    then have "last ?pre = line ! (i - 1)"
      using False by (simp add: last_conv_nth)
    with before False show ?thesis by simp
  qed
  have 4: "?post = [] \<or> \<not> isWordChar (hd ?post)"
  proof (cases "i + length w = length line")
    case True
    then show ?thesis by simp
  next
    case False
    then have "i + length w < length line" using i by simp
    then have "hd ?post = line ! (i + length w)"
      by (rule hd_drop_conv_nth)
    with after False show ?thesis by simp
  qed
  from 1 2 3 4 show "\<exists>pre m post.
            line = pre @ m @ post \<and> map canonicalize m = map canonicalize w \<and>
            (pre = [] \<or> \<not> isWordChar (last pre)) \<and>
            (post = [] \<or> \<not> isWordChar (hd post))"
    by blast
next
  assume "\<exists>pre m post.
            line = pre @ m @ post \<and> map canonicalize m = map canonicalize w \<and>
            (pre = [] \<or> \<not> isWordChar (last pre)) \<and>
            (post = [] \<or> \<not> isWordChar (hd post))"
  then obtain pre m post where l: "line = pre @ m @ post"
    and eq: "map canonicalize m = map canonicalize w"
    and b: "pre = [] \<or> \<not> isWordChar (last pre)"
    and a: "post = [] \<or> \<not> isWordChar (hd post)"
    by blast
  have len: "length m = length w"
    using eq by (metis length_map)
  have r0: "length pre < length line"
    using l len assms by simp
  have r1: "length pre + length w \<le> length line"
    using l len by simp
  have r2: "take (length w) (drop (length pre) line) = m"
    using l len by simp
  have r3: "length pre = 0 \<or> \<not> isWordChar (line ! (length pre - 1))"
  proof (cases "pre = []")
    case True
    then show ?thesis by simp
  next
    case False
    then have "line ! (length pre - 1) = last pre"
      using l by (simp add: nth_append last_conv_nth)
    with b False show ?thesis by simp
  qed
  have r4: "length pre + length w = length line \<or>
            \<not> isWordChar (line ! (length pre + length w))"
  proof (cases "post = []")
    case True
    then show ?thesis using l len by simp
  next
    case False
    then have "line ! (length pre + length w) = hd post"
      using l len by (simp add: nth_append hd_conv_nth)
    with a False show ?thesis by simp
  qed
  have "readsAt w line (length pre)"
    using r1 r2 r3 r4 eq by (simp add: readsAt_def partOfWord_iff fold_canon)
  with r0 show "\<exists>i<length line. readsAt w line i" by blast
qed

lemma dateMatch_mentions: "dateMatch line = mentionsRelativeTime line"
proof -
  have "dateMatch line =
          (\<exists>w\<in>set relativeTimeWords. \<exists>pre m post.
             line = pre @ m @ post \<and> map canonicalize m = map canonicalize w \<and>
             (pre = [] \<or> \<not> isWordChar (last pre)) \<and>
             (post = [] \<or> \<not> isWordChar (hd post)))"
    unfolding dateMatch_split by blast
  also have "\<dots> = (\<exists>w\<in>set relativeTimeWords. \<exists>i<length line. readsAt w line i)"
    by (rule bex_cong[OF refl]) (simp add: readsAt_split[OF relativeTimeWords_nonempty])
  also have "\<dots> = mentionsRelativeTime line"
    unfolding mentionsRelativeTime_def list_ex_upt specTimeWords_code
    by (simp add: list_ex_iff)
  finally show ?thesis .
qed

lemma joinSpace_empty_iff: "\<forall>x\<in>set xs. x \<noteq> [] \<Longrightarrow> (joinSpace xs = []) = (xs = [])"
  by (induction xs rule: joinSpace.induct) auto

lemma joinSpace_snoc:
  "joinSpace (xs @ [l]) = (if xs = [] then l else joinSpace xs @ [32] @ l)"
  by (induction xs rule: joinSpace.induct) auto

lemma summaryOf_snoc_long:
  assumes "20 < length l"
  shows "summaryOf (cs @ [l]) = (if summaryOf cs = [] then l else summaryOf cs @ [32] @ l)"
proof -
  let ?f = "filter (\<lambda>c. 20 < length c) cs"
  have ne: "\<forall>x\<in>set ?f. x \<noteq> []" by auto
  have "summaryOf (cs @ [l]) = joinSpace (?f @ [l])"
    using assms by (simp add: summaryOf_def)
  also have "\<dots> = (if ?f = [] then l else joinSpace ?f @ [32] @ l)"
    by (rule joinSpace_snoc)
  finally show ?thesis
    using joinSpace_empty_iff[OF ne] by (simp add: summaryOf_def)
qed

lemma summaryOf_append: "summaryOf (cs @ l # pre) =
   (if 20 < length l then summaryOf ((cs @ [l]) @ pre) else summaryOf (cs @ pre))"
  by (simp add: summaryOf_def)

lemma appendSummary_summaryOf:
  "20 < length l \<Longrightarrow> appendSummary (Some (summaryOf cs)) l = Some (summaryOf (cs @ [l]))"
  by (simp add: appendSummary_def summaryOf_snoc_long)

lemma itemsOfBlocks_append:
  "itemsOfBlocks (xs @ ys) = itemsOfBlocks xs @ itemsOfBlocks ys"
  by (simp add: itemsOfBlocks_def)

lemma itemsFrom_skip_title:
  assumes "looksLikeTitle t"
  shows "itemsFrom blk (t # tls) = itemsOfBlocks (openBlock blk []) @ itemsFrom (Some (t, [])) tls"
  using assms
  by (simp add: itemsFrom_def itemsOfBlocks_append openBlock_def split: prod.splits option.splits)

lemma itemsFrom_content_long:
  assumes "\<not> looksLikeTitle l" and "20 < length l"
  shows "itemsFrom (Some (t, cs)) (l # tls) = itemsFrom (Some (t, cs @ [l])) tls"
  using assms by (simp add: itemsFrom_def openBlock_def split: prod.splits)

lemma itemsFrom_content_ignored:
  assumes "\<not> looksLikeTitle l"
    and "case blk of None \<Rightarrow> True | Some (t, cs) \<Rightarrow> cleanTitle t = [] \<or> \<not> 20 < length l"
  shows "itemsFrom blk (l # tls) = itemsFrom blk tls"
proof (cases blk)
  case None
  then show ?thesis using assms(1) by (simp add: itemsFrom_def openBlock_def split: prod.splits)
next
  case (Some b)
  obtain t cs where b: "b = (t, cs)" by (cases b)
  obtain pre bs where tb: "titleBlocks tls = (pre, bs)" by (cases "titleBlocks tls")
  have "yieldsItem (t, cs @ l # pre) = yieldsItem (t, cs @ pre)"
    using assms(2) Some b by (auto simp: yieldsItem_def summaryOf_def)
  moreover have "yieldsItem (t, cs @ pre) \<Longrightarrow> summaryOf (cs @ l # pre) = summaryOf (cs @ pre)"
    using assms(2) Some b by (auto simp: yieldsItem_def summaryOf_def)
  ultimately show ?thesis
    using assms(1) Some b tb
    by (simp add: itemsFrom_def openBlock_def itemsOfBlocks_def)
qed

lemma pushIfComplete_tracks:
  assumes "tracks cur blk"
  shows "\<exists>r. pushIfComplete as cur = as @ r \<and>
              list_all2 fromTitleLine r (itemsOfBlocks (openBlock blk []))"
proof (cases blk)
  case None
  then have "pushIfComplete as cur = as @ []"
    using assms by (simp add: tracks_def pushIfComplete_def truthy_def)
  moreover have "itemsOfBlocks (openBlock blk []) = []"
    using None by (simp add: openBlock_def itemsOfBlocks_def)
  ultimately show ?thesis by (metis list_all2_Nil)
next
  case (Some b)
  obtain t cs where b: "b = (t, cs)" by (cases b)
  have tr: "looksLikeTitle t" "title cur = Some (cleanTitle t)" "source cur = extractSource t"
    "(publishedAt cur \<noteq> None) = dateMatch t"
    "cleanTitle t \<noteq> [] \<longrightarrow> summary cur = Some (summaryOf cs)"
    using assms Some b by (simp_all add: tracks_def)
  show ?thesis
  proof (cases "yieldsItem (t, cs)")
    case True
    then have ct: "cleanTitle t \<noteq> []" and sm: "summaryOf cs \<noteq> []"
      by (simp_all add: yieldsItem_def)
    have "pushIfComplete as cur = as @ [cur]"
      using tr ct sm by (simp add: pushIfComplete_def truthy_def)
    moreover have "itemsOfBlocks (openBlock blk []) = [(t, summaryOf cs)]"
      using True Some b by (simp add: openBlock_def itemsOfBlocks_def)
    moreover have "fromTitleLine cur (t, summaryOf cs)"
      using tr ct by (simp add: fromTitleLine_def dateMatch_mentions)
    ultimately show ?thesis by simp
  next
    case False
    then have "\<not> (truthy (title cur) \<and> truthy (summary cur))"
      using tr by (auto simp: yieldsItem_def truthy_def)
    then have "pushIfComplete as cur = as @ []"
      by (simp add: pushIfComplete_def)
    moreover have "itemsOfBlocks (openBlock blk []) = []"
      using False Some b by (simp add: openBlock_def itemsOfBlocks_def)
    ultimately show ?thesis by (metis list_all2_Nil)
  qed
qed

lemma itemsFrom_Nil: "itemsFrom blk [] = itemsOfBlocks (openBlock blk [])"
  by (simp add: itemsFrom_def)

lemma foldl_parseLine_blocks:
  "tracks cur blk \<Longrightarrow>
     \<exists>rest. finish (foldl (parseLine clk) (as, cur, k) ls) = as @ rest \<and>
            list_all2 fromTitleLine rest (itemsFrom blk (trimmedLines ls))"
proof (induction ls arbitrary: as cur k blk)
  case Nil
  then show ?case
    using pushIfComplete_tracks[OF Nil, of as]
    by (simp add: finish_def trimmedLines_def itemsFrom_Nil)
next
  case (Cons l ls)
  let ?t = "trim l"
  show ?case
  proof (cases "?t = []")
    case True
    then have "parseLine clk (as, cur, k) l = (as, cur, k)"
      by (simp add: parseLine_def Let_def)
    moreover have "trimmedLines (l # ls) = trimmedLines ls"
      using True by (simp add: trimmedLines_def)
    ultimately show ?thesis using Cons.IH[OF Cons.prems, of as k] by simp
  next
    case ne: False
    then have tl: "trimmedLines (l # ls) = ?t # trimmedLines ls"
      by (simp add: trimmedLines_def)
    show ?thesis
    proof (cases "looksLikeTitle ?t")
      case True
      let ?new = "\<lparr>title = Some (cleanTitle ?t), summary = Some [], url = None,
                   source = extractSource ?t, publishedAt = fst (extractDate clk k ?t)\<rparr>"
      have step: "parseLine clk (as, cur, k) l =
                    (pushIfComplete as cur, ?new, snd (extractDate clk k ?t))"
        using ne True by (simp add: parseLine_def Let_def split: prod.splits)
      have trk: "tracks ?new (Some (?t, []))"
        using True by (simp add: tracks_def extractDate_def summaryOf_def)
      obtain r0 where r0: "pushIfComplete as cur = as @ r0"
        and m0: "list_all2 fromTitleLine r0 (itemsOfBlocks (openBlock blk []))"
        using pushIfComplete_tracks[OF Cons.prems, of as] by blast
      obtain rest where rest: "finish (foldl (parseLine clk)
            (pushIfComplete as cur, ?new, snd (extractDate clk k ?t)) ls)
            = pushIfComplete as cur @ rest"
        and m1: "list_all2 fromTitleLine rest (itemsFrom (Some (?t, [])) (trimmedLines ls))"
        using Cons.IH[OF trk, of "pushIfComplete as cur" "snd (extractDate clk k ?t)"] by blast
      have "finish (foldl (parseLine clk) (as, cur, k) (l # ls)) = as @ (r0 @ rest)"
        using step rest r0 by simp
      moreover have "list_all2 fromTitleLine (r0 @ rest) (itemsFrom blk (trimmedLines (l # ls)))"
        using m0 m1 by (simp add: tl itemsFrom_skip_title[OF True] list_all2_appendI)
      ultimately show ?thesis by blast
    next
      case nt: False
      show ?thesis
      proof (cases "truthy (title cur) \<and> 20 < length ?t")
        case True
        then obtain t cs where blk: "blk = Some (t, cs)" and ct: "cleanTitle t \<noteq> []"
          using Cons.prems by (cases blk) (auto simp: tracks_def truthy_def)
        let ?cur' = "cur\<lparr>summary := appendSummary (summary cur) ?t\<rparr>"
        have step: "parseLine clk (as, cur, k) l = (as, ?cur', k)"
          using ne nt True by (simp add: parseLine_def Let_def)
        have "summary cur = Some (summaryOf cs)"
          using Cons.prems blk ct by (simp add: tracks_def)
        then have "summary ?cur' = Some (summaryOf (cs @ [?t]))"
          using True by (simp add: appendSummary_summaryOf)
        then have trk: "tracks ?cur' (Some (t, cs @ [?t]))"
          using Cons.prems blk by (simp add: tracks_def)
        have "itemsFrom blk (trimmedLines (l # ls)) = itemsFrom (Some (t, cs @ [?t])) (trimmedLines ls)"
          using nt True blk by (simp add: tl itemsFrom_content_long)
        then show ?thesis
          using Cons.IH[OF trk, of as k] step by simp
      next
        case False
        have step: "parseLine clk (as, cur, k) l = (as, cur, k)"
          using ne nt False by (auto simp: parseLine_def Let_def)
        have "case blk of None \<Rightarrow> True | Some (t, cs) \<Rightarrow> cleanTitle t = [] \<or> \<not> 20 < length ?t"
          using False Cons.prems by (auto simp: tracks_def truthy_def split: option.splits)
        then have "itemsFrom blk (trimmedLines (l # ls)) = itemsFrom blk (trimmedLines ls)"
          using nt by (simp add: tl itemsFrom_content_ignored)
        then show ?thesis
          using Cons.IH[OF Cons.prems, of as k] step by simp
      qed
    qed
  qed
qed

lemma parseLoop_blocks:
  "list_all2 fromTitleLine (fst (parseLoop clk k ls))
     (itemsOfBlocks (snd (titleBlocks (trimmedLines ls))))"
proof -
  have "tracks emptyArticle None"
    by (simp add: tracks_def emptyArticle_def)
  from foldl_parseLine_blocks[OF this, of clk "[]" k ls]
  have "list_all2 fromTitleLine (finish (foldl (parseLine clk) ([], emptyArticle, k) ls))
          (itemsFrom None (trimmedLines ls))"
    by simp
  moreover have "finish (foldl (parseLine clk) ([], emptyArticle, k) ls) = fst (parseLoop clk k ls)"
    by (simp add: finish_def parseLoop_def split: prod.splits)
  moreover have "itemsFrom None (trimmedLines ls) = itemsOfBlocks (snd (titleBlocks (trimmedLines ls)))"
    by (simp add: itemsFrom_def openBlock_def split: prod.splits)
  ultimately show ?thesis by simp
qed

lemma stampedBy_mono: "stampedBy clk k k1 a \<Longrightarrow> k1 \<le> k2 \<Longrightarrow> stampedBy clk k k2 a"
  by (auto simp: stampedBy_def split: option.splits)

lemma pushIfComplete_subset: "set (pushIfComplete as cur) \<subseteq> insert cur (set as)"
  by (auto simp: pushIfComplete_def)

lemma parseLine_stamped:
  assumes "parseLine clk (as, cur, k1) l = (as', cur', k1')"
    and "k \<le> k1" and "\<forall>a\<in>set as. stampedBy clk k k1 a" and "stampedBy clk k k1 cur"
  shows "k1 \<le> k1' \<and> (\<forall>a\<in>set as'. stampedBy clk k k1' a) \<and> stampedBy clk k k1' cur'"
proof (cases "trim l \<noteq> [] \<and> looksLikeTitle (trim l)")
  case True
  then have as': "as' = pushIfComplete as cur"
    and k1': "k1' = snd (extractDate clk k1 (trim l))"
    and cur': "publishedAt cur' = fst (extractDate clk k1 (trim l))"
    using assms(1) by (auto simp: parseLine_def Let_def split: prod.splits)
  have le: "k1 \<le> k1'" using k1' by (simp add: extractDate_def)
  have "\<forall>a\<in>set as'. stampedBy clk k k1 a"
    using as' assms(3,4) pushIfComplete_subset[of as cur] by auto
  then have old: "\<forall>a\<in>set as'. stampedBy clk k k1' a"
    using le stampedBy_mono by blast
  have "stampedBy clk k k1' cur'"
    using cur' k1' assms(2) by (auto simp: stampedBy_def extractDate_def)
  with le old show ?thesis by simp
next
  case False
  then have "as' = as \<and> k1' = k1 \<and> publishedAt cur' = publishedAt cur"
    using assms(1) by (auto simp: parseLine_def Let_def split: if_splits)
  then show ?thesis
    using assms(3,4) by (simp add: stampedBy_def)
qed

lemma foldl_parseLine_stamped:
  "foldl (parseLine clk) (as, cur, k1) ls = (as', cur', k1') \<Longrightarrow> k \<le> k1 \<Longrightarrow>
   \<forall>a\<in>set as. stampedBy clk k k1 a \<Longrightarrow> stampedBy clk k k1 cur \<Longrightarrow>
   (\<forall>a\<in>set as'. stampedBy clk k k1' a) \<and> stampedBy clk k k1' cur'"
proof (induction ls arbitrary: as cur k1)
  case Nil
  then show ?case by simp
next
  case (Cons l ls)
  obtain as2 cur2 k2 where st: "parseLine clk (as, cur, k1) l = (as2, cur2, k2)"
    by (cases "parseLine clk (as, cur, k1) l") auto
  have inv: "k1 \<le> k2 \<and> (\<forall>a\<in>set as2. stampedBy clk k k2 a) \<and> stampedBy clk k k2 cur2"
    using parseLine_stamped[OF st Cons.prems(2) Cons.prems(3) Cons.prems(4)] .
  have run: "foldl (parseLine clk) (as2, cur2, k2) ls = (as', cur', k1')"
    using Cons.prems(1) st by simp
  have "k \<le> k2" using inv Cons.prems(2) by simp
  with Cons.IH[OF run] inv show ?case by blast
qed

lemma parseLoop_stamped:
  "list_all (stampedBy clk k (snd (parseLoop clk k ls))) (fst (parseLoop clk k ls))"
proof -
  obtain as cur k' where st: "foldl (parseLine clk) ([], emptyArticle, k) ls = (as, cur, k')"
    by (cases "foldl (parseLine clk) ([], emptyArticle, k) ls") auto
  have "stampedBy clk k k emptyArticle"
    by (simp add: stampedBy_def emptyArticle_def)
  then have "(\<forall>a\<in>set as. stampedBy clk k k' a) \<and> stampedBy clk k k' cur"
    using foldl_parseLine_stamped[OF st, of k] by simp
  then have "\<forall>a\<in>set (pushIfComplete as cur). stampedBy clk k k' a"
    using pushIfComplete_subset[of as cur] by auto
  then show ?thesis
    by (simp add: parseLoop_def st list_all_iff)
qed

lemma sourcedStories_loop:
  "fst (parseLoop clk k (contentLines sourcedStories)) =
     [\<lparr>title = Some (str ''Flood warning Today''),
       summary = Some (str ''rivers rose overnight across the north, via Local News.''),
       url = None, source = Some (str ''Reuters''), publishedAt = Some (clk k)\<rparr>,
      \<lparr>title = Some (str ''Todays deals''),
       summary = Some (str ''shops cut prices earlier today, from Wire reports.''),
       url = None, source = None, publishedAt = None\<rparr>,
      \<lparr>title = Some (str ''Market Rally''),
       summary = Some (str ''stocks rose sharply yesterday.''),
       url = None, source = None, publishedAt = None\<rparr>]"
  by (simp add: sourcedStories_def str_def parse_defs char_defs title_defs clean_defs
      source_defs date_defs Let_def)

lemma sourcedStories_blocks:
  "itemsOfBlocks (snd (titleBlocks (trimmedLines (contentLines sourcedStories)))) =
     [(str ''1. Flood warning Today - Reuters'',
       str ''rivers rose overnight across the north, via Local News.''),
      (str ''2. Todays deals'', str ''shops cut prices earlier today, from Wire reports.''),
      (str ''3. Market Rally'', str ''stocks rose sharply yesterday.'')]"
  by (simp add: sourcedStories_def str_def contentLines_def trimmedLines_def itemsOfBlocks_def
      yieldsItem_def summaryOf_def char_defs title_defs clean_defs)

lemma sourcedStories_mentions:
  "mentionsRelativeTime (str ''1. Flood warning Today - Reuters'')"
  "\<not> mentionsRelativeTime (str ''2. Todays deals'')"
  "\<not> mentionsRelativeTime (str ''3. Market Rally'')"
  "mentionsRelativeTime (str ''shops cut prices earlier today, from Wire reports.'')"
  by (simp_all add: mentionsRelativeTime_def specTimeWords_def readsAt_def foldCase_def
      partOfWord_def str_def)

text \<open>
  C10. The items of the line-scanning loop correspond one to one, in order, to the blocks
  of lines that stand for an item, and each item takes its title, its source and the
  presence of \<open>publishedAt\<close> from the title line of its block alone. \<open>publishedAt\<close> is
  set exactly when the title line contains one of the words \<open>today\<close>, \<open>yesterday\<close>,
  \<open>this morning\<close>, \<open>this afternoon\<close>, \<open>earlier today\<close> as a whole word, capital and
  small letters taken as the same; the source is what \<open>extractSource\<close> finds in the title
  line. The continuation lines contribute the summary and nothing else. A
  \<open>publishedAt\<close> that is set is a reading of the clock taken during the loop.
\<close>

theorem parseLoop_items_from_title_lines:
  "list_all2 fromTitleLine (fst (parseLoop clk k ls))
     (itemsOfBlocks (snd (titleBlocks (trimmedLines ls)))) \<and>
   list_all (stampedBy clk k (snd (parseLoop clk k ls))) (fst (parseLoop clk k ls))"
  using parseLoop_blocks[of clk k ls] parseLoop_stamped[of clk k ls] by simp

theorem parseLoop_items_from_title_lines_witness:
  "list_all2 fromTitleLine (fst (parseLoop sampleClock 0 (contentLines sourcedStories)))
     [(str ''1. Flood warning Today - Reuters'',
       str ''rivers rose overnight across the north, via Local News.''),
      (str ''2. Todays deals'', str ''shops cut prices earlier today, from Wire reports.''),
      (str ''3. Market Rally'', str ''stocks rose sharply yesterday.'')] \<and>
   map title (fst (parseLoop sampleClock 0 (contentLines sourcedStories))) =
     [Some (str ''Flood warning Today''), Some (str ''Todays deals''),
      Some (str ''Market Rally'')] \<and>
   map source (fst (parseLoop sampleClock 0 (contentLines sourcedStories))) =
     [Some (str ''Reuters''), None, None] \<and>
   map publishedAt (fst (parseLoop sampleClock 0 (contentLines sourcedStories))) =
     [Some (sampleClock 0), None, None] \<and>
   mentionsRelativeTime (str ''1. Flood warning Today - Reuters'') \<and>
   \<not> mentionsRelativeTime (str ''2. Todays deals'') \<and>
   \<not> mentionsRelativeTime (str ''3. Market Rally'') \<and>
   mentionsRelativeTime (str ''shops cut prices earlier today, from Wire reports.'')"
  using parseLoop_items_from_title_lines[of sampleClock 0 "contentLines sourcedStories"]
  by (simp add: sourcedStories_blocks sourcedStories_loop sourcedStories_mentions)

end
